theory Spec2Isabelle
  imports Main "HOL-Library.Sublist"
begin

section \<open>The host environment of \<open>app.js\<close>\<close>

text \<open>
  \<open>app.js\<close> talks to three things the browser owns: the document tree, the console and
  the table of event listeners of the document. Only what the module touches is modelled.

  A node of the document is a text node or an element. An element carries the value of
  its \<open>id\<close> attribute (\<open>None\<close> when it has none) and its children, in document order.
  The document itself is the list of its top-level nodes. Strings are \<open>char list\<close>;
  nothing below looks inside a character.
\<close>

datatype node = Text string | Element "string option" "node list"

text \<open>
  An element reference, as \<open>getElementById\<close> hands it out, is the position of the element
  in the tree: the child indices on the way down from the document. A reference is never
  the empty path (that would be the document itself).
\<close>

type_synonym element_ref = "nat list"

datatype level = Error | Log

datatype jsval = Undefined | Null | Boolean bool | String string

text \<open>The callbacks the module registers are named; \<open>Init\<close> is the arrow function \<open>init\<close>.\<close>

datatype callback = Init

record state =
  dom :: "node list"
  console :: "(level \<times> string) list"
  listeners :: "(string \<times> callback) list"

subsection \<open>\<open>document.getElementById\<close>\<close>

text \<open>
  The first element in tree order (an element before its descendants, the descendants
  before the following siblings) whose ID is the argument, or null. An element whose
  \<open>id\<close> attribute is missing or empty has no ID, so the empty string finds nothing.
  \<open>find_node\<close> answers relative to a node (\<open>[]\<close> is the node itself), \<open>find_forest\<close>
  relative to a list of siblings.
\<close>

fun shift :: "element_ref \<Rightarrow> element_ref" where
  "shift [] = []"
| "shift (k # p) = Suc k # p"

fun find_node :: "string \<Rightarrow> node \<Rightarrow> element_ref option"
  and find_forest :: "string \<Rightarrow> node list \<Rightarrow> element_ref option" where
  "find_node t (Text d) = None"
| "find_node t (Element i cs) = (if t \<noteq> [] \<and> i = Some t then Some [] else find_forest t cs)"
| "find_forest t [] = None"
| "find_forest t (n # ns) =
     (case find_node t n of
        Some p \<Rightarrow> Some (0 # p)
      | None \<Rightarrow> map_option shift (find_forest t ns))"

definition getElementById :: "node list \<Rightarrow> string \<Rightarrow> element_ref option" where
  "getElementById d elementId = find_forest elementId d"

subsection \<open>Reading through a reference\<close>

fun node_at :: "element_ref \<Rightarrow> node \<Rightarrow> node option"
  and forest_at :: "element_ref \<Rightarrow> node list \<Rightarrow> node option" where
  "node_at [] n = Some n"
| "node_at (k # p) (Text d) = None"
| "node_at (k # p) (Element i cs) = forest_at (k # p) cs"
| "forest_at [] ns = None"
| "forest_at (k # p) [] = None"
| "forest_at (0 # p) (n # ns) = node_at p n"
| "forest_at (Suc k # p) (n # ns) = forest_at (k # p) ns"

text \<open>
  The \<open>textContent\<close> getter: the data of all text node descendants, concatenated in tree
  order.
\<close>

fun textContent :: "node \<Rightarrow> string"
  and textContents :: "node list \<Rightarrow> string" where
  "textContent (Text d) = d"
| "textContent (Element i cs) = textContents cs"
| "textContents [] = []"
| "textContents (n # ns) = textContent n @ textContents ns"

subsection \<open>The \<open>textContent\<close> setter\<close>

text \<open>
  Assigning a string to \<open>textContent\<close> of an element replaces all its children: by one
  text node holding the string, or by nothing when the string is empty. \<open>set_node\<close> and
  \<open>set_forest\<close> put the new children in at the referenced element and leave the rest of
  the tree as it is; a reference that leads nowhere changes nothing.
\<close>

fun set_node :: "element_ref \<Rightarrow> node list \<Rightarrow> node \<Rightarrow> node"
  and set_forest :: "element_ref \<Rightarrow> node list \<Rightarrow> node list \<Rightarrow> node list" where
  "set_node p new (Text d) = Text d"
| "set_node [] new (Element i cs) = Element i new"
| "set_node (k # p) new (Element i cs) = Element i (set_forest (k # p) new cs)"
| "set_forest [] new ns = ns"
| "set_forest (k # p) new [] = []"
| "set_forest (0 # p) new (n # ns) = set_node p new n # ns"
| "set_forest (Suc k # p) new (n # ns) = n # set_forest (k # p) new ns"

definition text_children :: "string \<Rightarrow> node list" where
  "text_children v = (if v = [] then [] else [Text v])"

definition set_textContent :: "element_ref \<Rightarrow> string \<Rightarrow> node list \<Rightarrow> node list" where
  "set_textContent element v d = set_forest element (text_children v) d"

subsection \<open>The console\<close>

definition console_error :: "string \<Rightarrow> state \<Rightarrow> state" where
  "console_error msg s = s\<lparr>console := console s @ [(Error, msg)]\<rparr>"

definition console_log :: "string \<Rightarrow> state \<Rightarrow> state" where
  "console_log msg s = s\<lparr>console := console s @ [(Log, msg)]\<rparr>"

section \<open>The module\<close>

text \<open>
  \<^verbatim>\<open>
  const displayMessage = (message, elementId) => {
    const element = document.getElementById(elementId);
    if (!element) {
      console.error(`Element with ID '${elementId}' not found`);
      return;
    }
    element.textContent = message;
  };
  \<close>
  A call takes the state of the host and gives back the value returned and the new state.
  Both ways out of the body return \<open>undefined\<close>.
\<close>

definition not_found_message :: "string \<Rightarrow> string" where
  "not_found_message elementId =
     ''Element with ID '' @ [CHR 0x27] @ elementId @ [CHR 0x27] @ '' not found''"

definition displayMessage :: "string \<Rightarrow> string \<Rightarrow> state \<Rightarrow> jsval \<times> state" where
  "displayMessage message elementId s =
     (case getElementById (dom s) elementId of
        None \<Rightarrow> (Undefined, console_error (not_found_message elementId) s)
      | Some element \<Rightarrow> (Undefined, s\<lparr>dom := set_textContent element message (dom s)\<rparr>))"

text \<open>
  \<^verbatim>\<open>
  const init = () => {
    displayMessage('Hello World', 'message');
    console.log('Hello World application initialized successfully');
  };
  \<close>
\<close>

definition init :: "state \<Rightarrow> jsval \<times> state" where
  "init s =
     (let (r1, s1) = displayMessage ''Hello World'' ''message'' s;
          s2 = console_log ''Hello World application initialized successfully'' s1
      in (Undefined, s2))"

subsection \<open>What a sink shows\<close>

text \<open>
  A sink is an element that \<open>getElementById\<close> finds. \<open>sink s t\<close> is the element the
  identifier \<open>t\<close> resolves to in state \<open>s\<close>, and \<open>sink_text\<close> its visible text.
\<close>

definition sink :: "state \<Rightarrow> string \<Rightarrow> node option" where
  "sink s t =
     (case getElementById (dom s) t of
        None \<Rightarrow> None
      | Some p \<Rightarrow> forest_at p (dom s))"

definition sink_text :: "state \<Rightarrow> string \<Rightarrow> string option" where
  "sink_text s t = map_option textContent (sink s t)"

text \<open>A run of writes to one identifier, in the order of the list.\<close>

fun writes :: "string list \<Rightarrow> string \<Rightarrow> state \<Rightarrow> state" where
  "writes [] t s = s"
| "writes (m # ms) t s = writes ms t (snd (displayMessage m t s))"

subsection \<open>Wiring to the host\<close>

text \<open>
  \<^verbatim>\<open>
  document.addEventListener('DOMContentLoaded', init);
  \<close>
  \<open>addEventListener\<close> appends the listener unless the same type and callback are already
  registered; nothing is called. The two \<open>const\<close> declarations before it only bind names,
  so the top level of the script, \<open>app_js\<close>, is this one registration.

  When the host dispatches an event, it calls the listeners registered for that type, in
  the order of registration, on the list as it was when the dispatch began.
\<close>

definition addEventListener :: "string \<Rightarrow> callback \<Rightarrow> state \<Rightarrow> state" where
  "addEventListener type cb s =
     (if (type, cb) \<in> set (listeners s) then s
      else s\<lparr>listeners := listeners s @ [(type, cb)]\<rparr>)"

definition app_js :: "state \<Rightarrow> state" where
  "app_js s = addEventListener ''DOMContentLoaded'' Init s"

fun call :: "callback \<Rightarrow> state \<Rightarrow> jsval \<times> state" where
  "call Init s = init s"

fun invoke_listeners :: "string \<Rightarrow> (string \<times> callback) list \<Rightarrow> state \<Rightarrow> state" where
  "invoke_listeners type [] s = s"
| "invoke_listeners type ((ty, cb) # ls) s =
     invoke_listeners type ls (if ty = type then snd (call cb s) else s)"

definition dispatchEvent :: "string \<Rightarrow> state \<Rightarrow> state" where
  "dispatchEvent type s = invoke_listeners type (listeners s) s"

text \<open>What the host does after loading the script: a sequence of events, oldest first.\<close>

fun host_run :: "string list \<Rightarrow> state \<Rightarrow> state" where
  "host_run [] s = s"
| "host_run (e # es) s = host_run es (dispatchEvent e s)"

subsection \<open>Pages\<close>

text \<open>
  Three pages with nothing on the console and no listener yet: one whose \<open>message\<close>
  element holds \<open>Old Text\<close> beside an unrelated element, one with no \<open>message\<close> element,
  and one whose \<open>message\<close> element sits inside another element with an ID and has a
  child with an ID.
\<close>

definition page :: "node list \<Rightarrow> state" where
  "page d = \<lparr>dom = d, console = [], listeners = []\<rparr>"

definition old_text_page :: state where
  "old_text_page =
     page [Element (Some ''title'') [Text ''Greeting''],
           Element (Some ''message'') [Element None [Text ''Old ''], Text ''Text'']]"

definition no_sink_page :: state where
  "no_sink_page = page [Element (Some ''title'') [Text ''Greeting'']]"

definition nested_page :: state where
  "nested_page =
     page [Element (Some ''outer'')
             [Element (Some ''message'') [Element (Some ''inner'') [Text ''Old Text'']]]]"

section \<open>Lookup and assignment\<close>

lemma shift_eq_Nil [simp]: "shift z = [] \<longleftrightarrow> z = []"
  by (cases z) simp_all

lemma find_forest_nonempty: "find_forest t ns = Some p \<Longrightarrow> p \<noteq> []"
  by (induction ns arbitrary: p) (auto split: option.splits)

lemma find_forest_Cons_cases:
  assumes "find_forest t (n # ns) = Some p"
  obtains (here) q where "find_node t n = Some q" "p = 0 # q"
  | (later) k q where "find_node t n = None" "find_forest t ns = Some (k # q)" "p = Suc k # q"
proof (cases "find_node t n")
  case None
  with assms obtain z where z: "find_forest t ns = Some z" "p = shift z" by auto
  then obtain k q where "z = k # q" using find_forest_nonempty by (cases z) auto
  with z None show ?thesis using later by simp
next
  case (Some q)
  with assms show ?thesis using here by simp
qed

lemma find_set_same:
  "find_node t n = Some p \<Longrightarrow> find_node t (set_node p new n) = Some p"
  "find_forest t ns = Some p \<Longrightarrow> find_forest t (set_forest p new ns) = Some p"
proof (induction t n and t ns arbitrary: p and p rule: find_node_find_forest.induct)
  case (1 t d)
  then show ?case by simp
next
  case (2 t i cs)
  show ?case
  proof (cases "t \<noteq> [] \<and> i = Some t")
    case True
    with 2 show ?thesis by auto
  next
    case False
    with 2 have f: "find_forest t cs = Some p" by auto
    then obtain k q where p: "p = k # q" using find_forest_nonempty by (cases p) auto
    from 2 False f have "find_forest t (set_forest p new cs) = Some p" by blast
    with False p show ?thesis by auto
  qed
next
  case (3 t)
  then show ?case by simp
next
  case (4 t n ns)
  from "4.prems" show ?case
  proof (cases rule: find_forest_Cons_cases)
    case (here q)
    with 4 show ?thesis by simp
  next
    case (later k q)
    with 4 show ?thesis by simp
  qed
qed

lemma at_set_same:
  "find_node t n = Some p \<Longrightarrow> node_at p (set_node p new n) = Some (Element (Some t) new)"
  "find_forest t ns = Some p \<Longrightarrow> forest_at p (set_forest p new ns) = Some (Element (Some t) new)"
proof (induction t n and t ns arbitrary: p and p rule: find_node_find_forest.induct)
  case (1 t d)
  then show ?case by simp
next
  case (2 t i cs)
  show ?case
  proof (cases "t \<noteq> [] \<and> i = Some t")
    case True
    with 2 show ?thesis by auto
  next
    case False
    with 2 have f: "find_forest t cs = Some p" by auto
    then obtain k q where p: "p = k # q" using find_forest_nonempty by (cases p) auto
    from 2 False f have "forest_at p (set_forest p new cs) = Some (Element (Some t) new)" by blast
    with False p show ?thesis by auto
  qed
next
  case (3 t)
  then show ?case by simp
next
  case (4 t n ns)
  from "4.prems" show ?case
  proof (cases rule: find_forest_Cons_cases)
    case (here q)
    with 4 show ?thesis by simp
  next
    case (later k q)
    with 4 show ?thesis by simp
  qed
qed

lemma textContents_text_children [simp]: "textContents (text_children v) = v"
  by (simp add: text_children_def)

lemma find_forest_text_children [simp]: "find_forest t (text_children v) = None"
  by (simp add: text_children_def)

lemma find_set_None:
  "find_forest t new = None \<Longrightarrow> find_node t n = None \<Longrightarrow> find_node t (set_node p new n) = None"
  "find_forest t new = None \<Longrightarrow> find_forest t ns = None \<Longrightarrow> find_forest t (set_forest p new ns) = None"
proof (induction p new n and p new ns rule: set_node_set_forest.induct)
qed (auto split: option.splits if_splits)

text \<open>
  An assignment at \<open>p\<close> cannot be seen at a reference \<open>q\<close> that lies neither above nor
  below \<open>p\<close>: the lookup that gave \<open>q\<close> gives it again, and the node there is the same.
\<close>

lemma find_set_other:
  "find_forest t2 new = None \<Longrightarrow> find_node t2 n = Some q \<Longrightarrow> \<not> prefix p q \<Longrightarrow> \<not> prefix q p \<Longrightarrow>
     find_node t2 (set_node p new n) = Some q \<and> node_at q (set_node p new n) = node_at q n"
  "find_forest t2 new = None \<Longrightarrow> find_forest t2 ns = Some q \<Longrightarrow> \<not> prefix p q \<Longrightarrow> \<not> prefix q p \<Longrightarrow>
     find_forest t2 (set_forest p new ns) = Some q \<and> forest_at q (set_forest p new ns) = forest_at q ns"
proof (induction p new n and p new ns arbitrary: q and q rule: set_node_set_forest.induct)
  case (1 p new d)
  then show ?case by simp
next
  case (2 new i cs)
  then show ?case by simp
next
  case (3 k p new i cs)
  from "3.prems" have q: "q \<noteq> []" by auto
  with "3.prems" have f: "find_forest t2 cs = Some q" and i: "\<not> (t2 \<noteq> [] \<and> i = Some t2)"
    by (auto split: if_splits)
  from "3.IH" [OF "3.prems"(1) f "3.prems"(3,4)] i q show ?case
    by (cases q) auto
next
  case (4 new ns)
  then show ?case by simp
next
  case (5 k p new)
  then show ?case by simp
next
  case (6 p new n ns)
  from "6.prems"(2) show ?case
  proof (cases rule: find_forest_Cons_cases)
    case (here q')
    with "6.prems" "6.IH" [of q'] show ?thesis by simp
  next
    case (later j q')
    with "6.prems" show ?thesis by (simp add: find_set_None)
  qed
next
  case (7 k p new n ns)
  from "7.prems"(2) show ?case
  proof (cases rule: find_forest_Cons_cases)
    case (here q')
    then show ?thesis by simp
  next
    case (later j q')
    with "7.prems" "7.IH" [of "j # q'"] show ?thesis by simp
  qed
qed

section \<open>What a call does to the state\<close>

lemma displayMessage_found:
  "getElementById (dom s) t = Some p \<Longrightarrow>
   displayMessage m t s = (Undefined, s\<lparr>dom := set_textContent p m (dom s)\<rparr>)"
  by (simp add: displayMessage_def)

lemma displayMessage_missing:
  "getElementById (dom s) t = None \<Longrightarrow>
   displayMessage m t s = (Undefined, console_error (not_found_message t) s)"
  by (simp add: displayMessage_def)

lemma displayMessage_keeps_ref:
  "getElementById (dom s) t = Some p \<Longrightarrow>
   getElementById (dom (snd (displayMessage m t s))) t = Some p"
  by (simp add: displayMessage_found getElementById_def set_textContent_def find_set_same)

lemma displayMessage_sink:
  "getElementById (dom s) t = Some p \<Longrightarrow>
   sink (snd (displayMessage m t s)) t = Some (Element (Some t) (text_children m))"
  by (simp add: sink_def displayMessage_keeps_ref)
     (simp add: displayMessage_found getElementById_def set_textContent_def at_set_same)

lemma displayMessage_sink_text:
  "getElementById (dom s) t = Some p \<Longrightarrow>
   sink_text (snd (displayMessage m t s)) t = Some m"
  by (simp add: sink_text_def displayMessage_sink)

lemma writes_keeps_ref:
  "getElementById (dom s) t = Some p \<Longrightarrow> getElementById (dom (writes ms t s)) t = Some p"
  by (induction ms arbitrary: s) (simp_all add: displayMessage_keeps_ref)

lemma writes_last:
  "getElementById (dom s) t = Some p \<Longrightarrow> ms \<noteq> [] \<Longrightarrow>
   sink_text (writes ms t s) t = Some (last ms)"
proof (induction ms arbitrary: s)
  case Nil
  then show ?case by simp
next
  case (Cons m ms)
  show ?case
  proof (cases "ms = []")
    case True
    with Cons.prems show ?thesis by (simp add: displayMessage_sink_text)
  next
    case False
    from Cons.prems have "getElementById (dom (snd (displayMessage m t s))) t = Some p"
      by (simp add: displayMessage_keeps_ref)
    with Cons.IH False show ?thesis by simp
  qed
qed

lemma init_state:
  "snd (init s) =
     console_log ''Hello World application initialized successfully''
       (snd (displayMessage ''Hello World'' ''message'' s))"
  by (simp add: init_def split: prod.splits)

lemma sink_console_log [simp]: "sink (console_log msg s) t = sink s t"
  by (simp add: sink_def console_log_def split: option.splits)

subsection \<open>Listeners and events\<close>

lemma displayMessage_listeners [simp]: "listeners (snd (displayMessage m t s)) = listeners s"
  by (simp add: displayMessage_def console_error_def split: option.splits)

lemma init_listeners [simp]: "listeners (snd (init s)) = listeners s"
  by (simp add: init_state console_log_def)

lemma init_console_grows: "length (console (snd (init s))) > length (console s)"
  by (simp add: init_state console_log_def displayMessage_def console_error_def
      split: option.splits)

lemma app_js_fresh:
  "listeners s0 = [] \<Longrightarrow> app_js s0 = s0\<lparr>listeners := [(''DOMContentLoaded'', Init)]\<rparr>"
  by (simp add: app_js_def addEventListener_def)

lemma dispatchEvent_registered:
  "listeners s = [(''DOMContentLoaded'', Init)] \<Longrightarrow>
   dispatchEvent e s = (if e = ''DOMContentLoaded'' then snd (init s) else s)"
  by (simp add: dispatchEvent_def)

lemma host_run_append: "host_run (xs @ ys) s = host_run ys (host_run xs s)"
  by (induction xs arbitrary: s) simp_all

lemma host_run_no_signal:
  "listeners s = [(''DOMContentLoaded'', Init)] \<Longrightarrow> ''DOMContentLoaded'' \<notin> set tr \<Longrightarrow>
   host_run tr s = s"
  by (induction tr) (auto simp: dispatchEvent_registered)

lemma host_run_counts:
  "listeners s = [(''DOMContentLoaded'', Init)] \<Longrightarrow>
   host_run tr s = ((\<lambda>s. snd (init s)) ^^ count_list tr ''DOMContentLoaded'') s"
proof (induction tr arbitrary: s)
  case Nil
  then show ?case by simp
next
  case (Cons e tr)
  then show ?case
    using funpow_swap1 [of "\<lambda>s. snd (init s)" "count_list tr ''DOMContentLoaded''" s]
    by (auto simp: dispatchEvent_registered)
qed

section \<open>The display operation\<close>

text \<open>
  C1. Whenever \<open>getElementById\<close> finds an element for \<open>t\<close>, after \<open>displayMessage m t\<close> the
  identifier still resolves to the same element, the children of that element are exactly
  the text node for \<open>m\<close> (no child at all when \<open>m\<close> is empty), whatever they were before,
  and its visible text is \<open>m\<close>.
\<close>

theorem displayMessage_overwrites:
  assumes "getElementById (dom s) t = Some p"
  shows "getElementById (dom (snd (displayMessage m t s))) t = Some p
       \<and> sink (snd (displayMessage m t s)) t = Some (Element (Some t) (text_children m))
       \<and> sink_text (snd (displayMessage m t s)) t = Some m"
  using assms displayMessage_keeps_ref displayMessage_sink displayMessage_sink_text by simp

theorem displayMessage_overwrites_witness:
  "getElementById (dom old_text_page) ''message'' = Some [1]
   \<and> sink_text old_text_page ''message'' = Some ''Old Text''
   \<and> sink (snd (displayMessage ''Hi'' ''message'' old_text_page)) ''message''
       = Some (Element (Some ''message'') [Text ''Hi''])
   \<and> sink_text (snd (displayMessage ''Hi'' ''message'' old_text_page)) ''message'' = Some ''Hi''"
proof -
  have h: "getElementById (dom old_text_page) ''message'' = Some [1]"
    by (simp add: old_text_page_def page_def getElementById_def)
  have o: "sink_text old_text_page ''message'' = Some ''Old Text''"
    by (simp add: sink_text_def sink_def h) (simp add: old_text_page_def page_def)
  show ?thesis
    using h o displayMessage_overwrites [OF h, of "''Hi''"] by (simp add: text_children_def)
qed

text \<open>
  C2. Whenever \<open>getElementById\<close> finds nothing for \<open>t'\<close>, \<open>displayMessage m t'\<close> leaves the
  whole document (hence every sink) and the listeners as they were and appends exactly
  one entry to the console: the error \<open>Element with ID 't'' not found\<close>, which contains
  \<open>t'\<close> and the words \<open>not found\<close>.
\<close>

theorem displayMessage_missing_sink:
  assumes "getElementById (dom s) t' = None"
  shows "dom (snd (displayMessage m t' s)) = dom s
       \<and> listeners (snd (displayMessage m t' s)) = listeners s
       \<and> console (snd (displayMessage m t' s)) = console s @ [(Error, not_found_message t')]
       \<and> sublist t' (not_found_message t')
       \<and> sublist ''not found'' (not_found_message t')"
proof -
  have "sublist t' (not_found_message t')"
    unfolding not_found_message_def sublist_def by (metis append.assoc)
  moreover have "sublist ''not found'' (not_found_message t')"
    unfolding not_found_message_def sublist_def
    by (rule exI [of _ "''Element with ID '' @ [CHR 0x27] @ t' @ [CHR 0x27] @ '' ''"],
        rule exI [of _ "[]"]) simp
  ultimately show ?thesis
    using assms by (simp add: displayMessage_missing console_error_def)
qed

theorem displayMessage_missing_sink_witness:
  "getElementById (dom no_sink_page) ''message'' = None
   \<and> dom (snd (displayMessage ''Hi'' ''message'' no_sink_page)) = dom no_sink_page
   \<and> console (snd (displayMessage ''Hi'' ''message'' no_sink_page))
       = [(Error, ''Element with ID '' @ [CHR 0x27] @ ''message'' @ [CHR 0x27] @ '' not found'')]"
proof -
  have h: "getElementById (dom no_sink_page) ''message'' = None"
    by (simp add: no_sink_page_def page_def getElementById_def)
  have c: "console no_sink_page = []"
    by (simp add: no_sink_page_def page_def)
  show ?thesis
    using h c displayMessage_missing_sink [OF h, of "''Hi''"]
    by (simp add: not_found_message_def)
qed

section \<open>Initialisation\<close>

text \<open>
  C3. In every state, \<open>init\<close> returns \<open>undefined\<close> and leaves the host exactly as
  \<open>displayMessage 'Hello World' 'message'\<close> followed by one more console line would: the
  same document, the same listeners, and the console of the inner call with the line
  \<open>Hello World application initialized successfully\<close> appended after whatever the inner
  call wrote. Nothing in the statement depends on whether the inner call found its sink.
\<close>

theorem init_is_displayMessage_then_log:
  "fst (init s) = Undefined
   \<and> dom (snd (init s)) = dom (snd (displayMessage ''Hello World'' ''message'' s))
   \<and> console (snd (init s))
       = console (snd (displayMessage ''Hello World'' ''message'' s))
         @ [(Log, ''Hello World application initialized successfully'')]
   \<and> listeners (snd (init s)) = listeners (snd (displayMessage ''Hello World'' ''message'' s))"
proof -
  have "fst (init s) = Undefined"
    by (simp add: init_def split: prod.splits)
  then show ?thesis
    by (simp add: init_state console_log_def)
qed

text \<open>
  C4. Whenever no element has the ID \<open>message\<close>, \<open>init\<close> leaves the document untouched and
  appends two lines to the console: the error of the failed lookup, which names
  \<open>message\<close>, and then, all the same, the line saying that the application was
  initialized successfully.
\<close>

theorem init_missing_sink:
  assumes "getElementById (dom s) ''message'' = None"
  shows "dom (snd (init s)) = dom s
       \<and> console (snd (init s))
           = console s @ [(Error, not_found_message ''message''),
                          (Log, ''Hello World application initialized successfully'')]
       \<and> sublist ''message'' (not_found_message ''message'')"
proof -
  have "sublist ''message'' (not_found_message ''message'')"
    unfolding not_found_message_def sublist_def by (metis append.assoc)
  then show ?thesis
    using assms
    by (simp add: init_state console_log_def displayMessage_missing console_error_def)
qed

theorem init_missing_sink_witness:
  "getElementById (dom no_sink_page) ''message'' = None
   \<and> dom (snd (init no_sink_page)) = dom no_sink_page
   \<and> console (snd (init no_sink_page))
       = [(Error, ''Element with ID '' @ [CHR 0x27] @ ''message'' @ [CHR 0x27] @ '' not found''),
          (Log, ''Hello World application initialized successfully'')]"
proof -
  have h: "getElementById (dom no_sink_page) ''message'' = None"
    by (simp add: no_sink_page_def page_def getElementById_def)
  have c: "console no_sink_page = []"
    by (simp add: no_sink_page_def page_def)
  show ?thesis
    using h c init_missing_sink [OF h] by (simp add: not_found_message_def)
qed

text \<open>
  C7. Whenever an element has the ID \<open>message\<close>, whatever it holds, after \<open>init\<close> that
  identifier resolves to an element whose only child is the text \<open>Hello World\<close>, so its
  visible text is exactly \<open>Hello World\<close>.
\<close>

theorem init_shows_hello_world:
  assumes "getElementById (dom s) ''message'' = Some p"
  shows "sink (snd (init s)) ''message''
           = Some (Element (Some ''message'') [Text ''Hello World''])
       \<and> sink_text (snd (init s)) ''message'' = Some ''Hello World''"
proof -
  have "sink (snd (init s)) ''message''
          = sink (snd (displayMessage ''Hello World'' ''message'' s)) ''message''"
    by (simp add: init_state)
  with assms show ?thesis
    by (simp add: sink_text_def displayMessage_sink text_children_def)
qed

theorem init_shows_hello_world_witness:
  "getElementById (dom old_text_page) ''message'' = Some [1]
   \<and> sink_text old_text_page ''message'' = Some ''Old Text''
   \<and> sink_text (snd (init old_text_page)) ''message'' = Some ''Hello World''
   \<and> getElementById (dom (page [Element (Some ''message'') []])) ''message'' = Some [0]
   \<and> sink_text (page [Element (Some ''message'') []]) ''message'' = Some ''''
   \<and> sink_text (snd (init (page [Element (Some ''message'') []]))) ''message''
       = Some ''Hello World''"
proof -
  have h: "getElementById (dom old_text_page) ''message'' = Some [1]"
    by (simp add: old_text_page_def page_def getElementById_def)
  have o: "sink_text old_text_page ''message'' = Some ''Old Text''"
    by (simp add: sink_text_def sink_def h) (simp add: old_text_page_def page_def)
  have e: "getElementById (dom (page [Element (Some ''message'') []])) ''message'' = Some [0]"
    by (simp add: page_def getElementById_def)
  have f: "sink_text (page [Element (Some ''message'') []]) ''message'' = Some ''''"
    by (simp add: sink_text_def sink_def e) (simp add: page_def)
  show ?thesis
    using h o e f init_shows_hello_world [OF h] init_shows_hello_world [OF e] by simp
qed

section \<open>What the caller of \<open>displayMessage\<close> can see\<close>

text \<open>
  C5. \<open>displayMessage\<close> returns \<open>undefined\<close> in every state and for every argument, so the
  value returned is the same for a call that found its sink and a call that did not. The
  two differ on the console only: the call that finds nothing appends the error, the call
  that finds its sink leaves the console as it was.
\<close>

theorem displayMessage_returns_undefined:
  "fst (displayMessage m t s) = Undefined
   \<and> fst (displayMessage m t s) = fst (displayMessage m' t' s')
   \<and> (getElementById (dom s) t = None \<longrightarrow>
        console (snd (displayMessage m t s)) = console s @ [(Error, not_found_message t)])
   \<and> (getElementById (dom s) t \<noteq> None \<longrightarrow>
        console (snd (displayMessage m t s)) = console s)"
  by (auto simp: displayMessage_def console_error_def split: option.splits)

theorem displayMessage_returns_undefined_witness:
  "getElementById (dom no_sink_page) ''message'' = None
   \<and> getElementById (dom old_text_page) ''message'' \<noteq> None
   \<and> fst (displayMessage ''Hi'' ''message'' no_sink_page)
       = fst (displayMessage ''Hi'' ''message'' old_text_page)
   \<and> console (snd (displayMessage ''Hi'' ''message'' no_sink_page))
       = [(Error, not_found_message ''message'')]
   \<and> console (snd (displayMessage ''Hi'' ''message'' old_text_page)) = []"
proof -
  have h: "getElementById (dom no_sink_page) ''message'' = None"
    by (simp add: no_sink_page_def page_def getElementById_def)
  have g: "getElementById (dom old_text_page) ''message'' \<noteq> None"
    by (simp add: old_text_page_def page_def getElementById_def)
  have c: "console no_sink_page = []" "console old_text_page = []"
    by (simp_all add: no_sink_page_def old_text_page_def page_def)
  show ?thesis
    using h g c
      displayMessage_returns_undefined
        [of "''Hi''" "''message''" no_sink_page "''Hi''" "''message''" old_text_page]
      displayMessage_returns_undefined
        [of "''Hi''" "''message''" old_text_page "''Hi''" "''message''" no_sink_page]
    by simp
qed

section \<open>Repeated writes\<close>

text \<open>
  C6. Whenever \<open>t\<close> resolves to an element, writing \<open>m\<close> and then \<open>m2\<close> to \<open>t\<close> leaves the
  visible text of the sink equal to \<open>m2\<close>, and after any non-empty run of writes to \<open>t\<close>
  the visible text is the last message of the run.
\<close>

theorem last_write_wins:
  assumes "getElementById (dom s) t = Some p"
  shows "sink_text (snd (displayMessage m2 t (snd (displayMessage m t s)))) t = Some m2
       \<and> (ms \<noteq> [] \<longrightarrow> sink_text (writes ms t s) t = Some (last ms))"
  using assms displayMessage_keeps_ref [OF assms, of m]
  by (simp add: displayMessage_sink_text writes_last)

theorem last_write_wins_witness:
  "getElementById (dom old_text_page) ''message'' = Some [1]
   \<and> sink_text (snd (displayMessage ''B'' ''message''
                       (snd (displayMessage ''A'' ''message'' old_text_page)))) ''message''
       = Some ''B''
   \<and> sink_text (writes [''A'', ''B'', ''C''] ''message'' old_text_page) ''message'' = Some ''C''"
proof -
  have h: "getElementById (dom old_text_page) ''message'' = Some [1]"
    by (simp add: old_text_page_def page_def getElementById_def)
  show ?thesis
    using h last_write_wins [OF h, of "''B''" "''A''" "[''A'', ''B'', ''C'']"] by simp
qed

text \<open>
  C9. The empty message is written like any other: whenever \<open>t\<close> resolves to an element,
  after \<open>displayMessage '' t\<close> that element has no children and its visible text is the
  empty string.
\<close>

theorem displayMessage_empty_clears:
  assumes "getElementById (dom s) t = Some p"
  shows "sink (snd (displayMessage [] t s)) t = Some (Element (Some t) [])
       \<and> sink_text (snd (displayMessage [] t s)) t = Some []"
  using assms by (simp add: displayMessage_sink displayMessage_sink_text text_children_def)

theorem displayMessage_empty_clears_witness:
  "getElementById (dom old_text_page) ''message'' = Some [1]
   \<and> sink_text old_text_page ''message'' = Some ''Old Text''
   \<and> sink (snd (displayMessage [] ''message'' old_text_page)) ''message''
       = Some (Element (Some ''message'') [])
   \<and> sink_text (snd (displayMessage [] ''message'' old_text_page)) ''message'' = Some []"
proof -
  have h: "getElementById (dom old_text_page) ''message'' = Some [1]"
    by (simp add: old_text_page_def page_def getElementById_def)
  have o: "sink_text old_text_page ''message'' = Some ''Old Text''"
    by (simp add: sink_text_def sink_def h) (simp add: old_text_page_def page_def)
  show ?thesis
    using h o displayMessage_empty_clears [OF h] by simp
qed

section \<open>What a write leaves alone\<close>

text \<open>
  C10. A successful \<open>displayMessage m t\<close> leaves alone every sink whose element neither
  contains the element of \<open>t\<close> nor lies inside it: such an identifier \<open>t2\<close> resolves to the
  same element as before, and that element and its visible text are unchanged. (Two
  references of which neither is a prefix of the other belong to different identifiers, so
  \<open>t2 \<noteq> t\<close> need not be assumed.)
\<close>

theorem displayMessage_frame:
  assumes "getElementById (dom s) t = Some p"
    and "getElementById (dom s) t2 = Some q"
    and "\<not> prefix p q" and "\<not> prefix q p"
  shows "getElementById (dom (snd (displayMessage m t s))) t2 = Some q
       \<and> sink (snd (displayMessage m t s)) t2 = sink s t2
       \<and> sink_text (snd (displayMessage m t s)) t2 = sink_text s t2"
proof -
  have d: "dom (snd (displayMessage m t s)) = set_forest p (text_children m) (dom s)"
    using assms(1) by (simp add: displayMessage_found set_textContent_def)
  have "find_forest t2 (set_forest p (text_children m) (dom s)) = Some q
      \<and> forest_at q (set_forest p (text_children m) (dom s)) = forest_at q (dom s)"
    using assms(2-4) by (intro find_set_other) (simp_all add: getElementById_def)
  with d assms(2) show ?thesis
    by (simp add: sink_text_def sink_def getElementById_def)
qed

theorem displayMessage_frame_witness:
  "getElementById (dom old_text_page) ''message'' = Some [1]
   \<and> getElementById (dom old_text_page) ''title'' = Some [0]
   \<and> \<not> prefix [1::nat] [0] \<and> \<not> prefix [0::nat] [1]
   \<and> sink_text old_text_page ''title'' = Some ''Greeting''
   \<and> sink_text (snd (displayMessage ''Hi'' ''message'' old_text_page)) ''title''
       = Some ''Greeting''"
proof -
  have h: "getElementById (dom old_text_page) ''message'' = Some [1]"
    by (simp add: old_text_page_def page_def getElementById_def)
  have g: "getElementById (dom old_text_page) ''title'' = Some [0]"
    by (simp add: old_text_page_def page_def getElementById_def)
  have n: "\<not> prefix [1::nat] [0]" "\<not> prefix [0::nat] [1]"
    by simp_all
  have o: "sink_text old_text_page ''title'' = Some ''Greeting''"
    by (simp add: sink_text_def sink_def g) (simp add: old_text_page_def page_def)
  show ?thesis
    using h g n o displayMessage_frame [OF h g n, of "''Hi''"] by simp
qed

text \<open>
  Without the restriction the frame fails in both directions. On the nested page the
  write to \<open>message\<close> succeeds; the sink \<open>outer\<close>, which contains the target, then shows
  the new message, and the sink \<open>inner\<close>, which was a child of the target, is gone from
  the document.
\<close>

theorem nested_sinks_change:
  "getElementById (dom nested_page) ''message'' = Some [0, 0]
   \<and> ''outer'' \<noteq> ''message''
   \<and> sink_text nested_page ''outer'' = Some ''Old Text''
   \<and> sink_text (snd (displayMessage ''Hello World'' ''message'' nested_page)) ''outer''
       = Some ''Hello World''
   \<and> ''inner'' \<noteq> ''message''
   \<and> sink_text nested_page ''inner'' = Some ''Old Text''
   \<and> sink_text (snd (displayMessage ''Hello World'' ''message'' nested_page)) ''inner'' = None"
  by (simp add: nested_page_def page_def sink_text_def sink_def getElementById_def
      displayMessage_def set_textContent_def text_children_def)

section \<open>The life of the component\<close>

text \<open>
  C8. On a page that starts without listeners, loading the script only registers \<open>init\<close>:
  the document and the console are as before. This is the idle state. While the host
  dispatches events other than \<open>DOMContentLoaded\<close> the state stays idle, so no operation
  of the component has run. When the host fires \<open>DOMContentLoaded\<close> once, as its contract
  says, the state becomes that of one run of \<open>init\<close> on the idle state, whatever events
  come before and after: this is the done state. It differs from the idle state, and no
  later event changes it, so there is no way back, no second run and no undoing.
\<close>

theorem lifecycle:
  assumes "listeners s0 = []"
  shows "dom (app_js s0) = dom s0 \<and> console (app_js s0) = console s0
       \<and> (''DOMContentLoaded'' \<notin> set pre \<longrightarrow> host_run pre (app_js s0) = app_js s0)
       \<and> (''DOMContentLoaded'' \<notin> set pre \<longrightarrow> ''DOMContentLoaded'' \<notin> set post \<longrightarrow>
            host_run (pre @ ''DOMContentLoaded'' # post) (app_js s0) = snd (init (app_js s0)))
       \<and> snd (init (app_js s0)) \<noteq> app_js s0"
proof -
  let ?idle = "app_js s0"
  have l: "listeners ?idle = [(''DOMContentLoaded'', Init)]"
    using assms by (simp add: app_js_fresh)
  have a: "dom ?idle = dom s0 \<and> console ?idle = console s0"
    using assms by (simp add: app_js_fresh)
  have b: "host_run pre ?idle = ?idle" if "''DOMContentLoaded'' \<notin> set pre"
    using l that by (rule host_run_no_signal)
  have c: "host_run (pre @ ''DOMContentLoaded'' # post) ?idle = snd (init ?idle)"
    if "''DOMContentLoaded'' \<notin> set pre" "''DOMContentLoaded'' \<notin> set post"
  proof -
    have "host_run (pre @ ''DOMContentLoaded'' # post) ?idle
            = host_run post (dispatchEvent ''DOMContentLoaded'' ?idle)"
      using b that(1) by (simp add: host_run_append)
    also have "\<dots> = host_run post (snd (init ?idle))"
      using l by (simp add: dispatchEvent_registered)
    also have "\<dots> = snd (init ?idle)"
      using l that(2) by (intro host_run_no_signal) simp_all
    finally show ?thesis .
  qed
  have d: "snd (init ?idle) \<noteq> ?idle"
    using init_console_grows [of ?idle] by auto
  from a b c d show ?thesis by blast
qed

theorem lifecycle_witness:
  "listeners old_text_page = []
   \<and> ''DOMContentLoaded'' \<notin> set [''readystatechange'']
   \<and> ''DOMContentLoaded'' \<notin> set [''load'', ''visibilitychange'']
   \<and> host_run [''readystatechange''] (app_js old_text_page) = app_js old_text_page
   \<and> console (app_js old_text_page) = []
   \<and> sink_text (app_js old_text_page) ''message'' = Some ''Old Text''
   \<and> console (host_run ([''readystatechange''] @ ''DOMContentLoaded''
                            # [''load'', ''visibilitychange'']) (app_js old_text_page))
       = [(Log, ''Hello World application initialized successfully'')]
   \<and> sink_text (host_run ([''readystatechange''] @ ''DOMContentLoaded''
                              # [''load'', ''visibilitychange'']) (app_js old_text_page))
         ''message''
       = Some ''Hello World''"
proof -
  have h: "listeners old_text_page = []"
    by (simp add: old_text_page_def page_def)
  have p: "''DOMContentLoaded'' \<notin> set [''readystatechange'']"
    "''DOMContentLoaded'' \<notin> set [''load'', ''visibilitychange'']"
    by simp_all
  have i: "app_js old_text_page
             = old_text_page\<lparr>listeners := [(''DOMContentLoaded'', Init)]\<rparr>"
    using h by (rule app_js_fresh)
  have c: "console (app_js old_text_page) = []"
    by (simp add: i) (simp add: old_text_page_def page_def)
  have m: "dom (app_js old_text_page) = dom old_text_page"
    by (simp add: i)
  have f: "getElementById (dom old_text_page) ''message'' = Some [1]"
    by (simp add: old_text_page_def page_def getElementById_def)
  have g: "getElementById (dom (app_js old_text_page)) ''message'' = Some [1]"
    using f m by simp
  have o: "sink_text (app_js old_text_page) ''message'' = Some ''Old Text''"
    by (simp add: sink_text_def sink_def m f) (simp add: old_text_page_def page_def)
  have d: "console (snd (init (app_js old_text_page)))
             = [(Log, ''Hello World application initialized successfully'')]"
    using g c by (simp add: init_state console_log_def displayMessage_found)
  have t: "sink_text (snd (init (app_js old_text_page))) ''message'' = Some ''Hello World''"
    using g by (simp add: init_state sink_text_def displayMessage_sink text_children_def)
  note life = lifecycle [OF h, of "[''readystatechange'']" "[''load'', ''visibilitychange'']"]
  from life p have r: "host_run [''readystatechange''] (app_js old_text_page) = app_js old_text_page"
    by blast
  from life p have e:
    "host_run ([''readystatechange''] @ ''DOMContentLoaded'' # [''load'', ''visibilitychange''])
       (app_js old_text_page) = snd (init (app_js old_text_page))"
    by blast
  from h p r c o d t show ?thesis
    unfolding e by blast
qed

text \<open>
  The component keeps no record of having run: the one run is the host's single firing of
  the signal. For any sequence of events, \<open>init\<close> has run once for each
  \<open>DOMContentLoaded\<close> in it (\<open>host_run_counts\<close>).
\<close>

end
